theory Spec2Isabelle
  imports Complex_Main
begin

section \<open>Python values used by \<^verbatim>\<open>tools.py\<close>\<close>

text \<open>
  The exceptions the modelled functions can raise. \<^verbatim>\<open>ValueError\<close> and \<^verbatim>\<open>OverflowError\<close> carry
  the message the source or \<^verbatim>\<open>math.floor\<close> gives them (a shortened one where numpy or \<^verbatim>\<open>int()\<close>
  raises).
\<close>

datatype py_error = ValueError string | IndexError | OverflowError string

text \<open>
  Python slicing \<^verbatim>\<open>xs[a:b]\<close> with step 1: a negative bound counts from the end of the
  sequence, and every bound is clamped to \<^verbatim>\<open>0 .. len(xs)\<close>. \<^verbatim>\<open>xs[a:]\<close> has no upper bound.
\<close>

definition norm_index :: "nat \<Rightarrow> int \<Rightarrow> nat" where
  "norm_index n i = (if i < 0 then nat (max 0 (int n + i)) else min n (nat i))"

definition py_slice :: "'a list \<Rightarrow> int \<Rightarrow> int \<Rightarrow> 'a list" where
  "py_slice xs a b = drop (norm_index (length xs) a) (take (norm_index (length xs) b) xs)"

definition py_slice_from :: "'a list \<Rightarrow> int \<Rightarrow> 'a list" where
  "py_slice_from xs a = drop (norm_index (length xs) a) xs"

subsection \<open>Floats\<close>

text \<open>
  A Python float is a finite value, one of the two infinities, or NaN. A finite float is
  modelled as the rational number it denotes.
\<close>

datatype py_float = Finite rat | PosInf | NegInf | NaN

definition float_finite :: "py_float \<Rightarrow> bool" where
  "float_finite x = (case x of Finite a \<Rightarrow> True | _ \<Rightarrow> False)"

text \<open>\<^verbatim>\<open>x < y\<close> and \<^verbatim>\<open>x == y\<close>: every comparison with NaN is false.\<close>

fun float_lt :: "py_float \<Rightarrow> py_float \<Rightarrow> bool" where
  "float_lt (Finite a) (Finite b) = (a < b)"
| "float_lt (Finite a) PosInf = True"
| "float_lt NegInf (Finite b) = True"
| "float_lt NegInf PosInf = True"
| "float_lt x y = False"

fun float_eq :: "py_float \<Rightarrow> py_float \<Rightarrow> bool" where
  "float_eq (Finite a) (Finite b) = (a = b)"
| "float_eq PosInf PosInf = True"
| "float_eq NegInf NegInf = True"
| "float_eq x y = False"

text \<open>
  \<^verbatim>\<open>x / c\<close> and \<^verbatim>\<open>x % c\<close> for a finite divisor \<open>c > 0\<close> (the source divides by 1.5 only). An
  infinity or NaN divided by \<open>c\<close> is itself, and its remainder is NaN. On finite values the
  quotient and the remainder are taken exactly: the model leaves out the rounding of the
  float quotient, which the floor of \<^verbatim>\<open>x / 1.5\<close> can only see for \<open>x\<close> of magnitude \<open>2^52\<close> and
  more. \<^verbatim>\<open>x % c\<close> has the sign of \<open>c\<close>.
\<close>

fun float_div :: "py_float \<Rightarrow> rat \<Rightarrow> py_float" where
  "float_div (Finite a) c = Finite (a / c)"
| "float_div x c = x"

definition py_mod :: "rat \<Rightarrow> rat \<Rightarrow> rat" where
  "py_mod x y = x - y * of_int \<lfloor>x / y\<rfloor>"

fun float_mod :: "py_float \<Rightarrow> rat \<Rightarrow> py_float" where
  "float_mod (Finite a) c = Finite (py_mod a c)"
| "float_mod x c = NaN"

text \<open>\<^verbatim>\<open>math.floor(x)\<close> raises on NaN and on the infinities.\<close>

fun math_floor :: "py_float \<Rightarrow> py_error + int" where
  "math_floor (Finite a) = Inr \<lfloor>a\<rfloor>"
| "math_floor NaN = Inl (ValueError ''cannot convert float NaN to integer'')"
| "math_floor x = Inl (OverflowError ''cannot convert float infinity to integer'')"

section \<open>Epoch resolution: \<^verbatim>\<open>time_to_stimuli\<close>\<close>

text \<open>
  \<^verbatim>\<open>time_to_stimuli(signal, interval)\<close>. The first argument of the model is the list
  \<^verbatim>\<open>val_epochs\<close> that the external \<^verbatim>\<open>epoch.epoch_names_matching(signal.epochs, "^STIM_00")\<close>
  returns for the signal. The result is the raised exception or the pair
  \<^verbatim>\<open>(names, index)\<close>. The two indices are computed left to right, so a start that
  \<^verbatim>\<open>math.floor\<close> refuses is reported before the end is looked at.
\<close>

definition time_to_stimuli ::
  "string list \<Rightarrow> py_float \<times> py_float \<Rightarrow> py_error + (string list \<times> (int \<times> int))" where
  "time_to_stimuli val_epochs interval =
     (if float_lt (fst interval) (Finite 0) then Inl (ValueError ''Start Index out of range'')
      else
        case math_floor (float_div (fst interval) (3 / 2)) of
          Inl err \<Rightarrow> Inl err
        | Inr index0 \<Rightarrow>
        case math_floor (float_div (snd interval) (3 / 2)) of
          Inl err \<Rightarrow> Inl err
        | Inr index1 \<Rightarrow>
        let index = (index0, index1) in
        if snd index = int (length val_epochs)
          then Inr (py_slice_from val_epochs (fst index), index)
        else if snd index > int (length val_epochs) - 1
          then Inl (ValueError ''End Index out of range'')
        else if snd index \<noteq> 0 \<and> float_eq (float_mod (snd interval) (3 / 2)) (Finite 0)
          then Inr (py_slice val_epochs (fst index) (snd index), index)
        else Inr (py_slice val_epochs (fst index) (snd index + 1), index))"

section \<open>The design matrix: \<^verbatim>\<open>prepare_stimuli\<close>\<close>

subsection \<open>Two-dimensional numpy arrays\<close>

text \<open>
  A 2-D array carries its shape and its data in row-major order, so that an array with no
  rows still has a column count (\<^verbatim>\<open>shape == (0, k)\<close>). The entries are never computed
  with, only moved and set to zero, so their type is any type with a zero.
\<close>

record 'a ndarray =
  nrows :: nat
  ncols :: nat
  rows :: "'a list list"

definition wf_array :: "'a ndarray \<Rightarrow> bool" where
  "wf_array A \<longleftrightarrow> length (rows A) = nrows A \<and> list_all (\<lambda>r. length r = ncols A) (rows A)"

text \<open>\<^verbatim>\<open>np.zeros((m, d))\<close>.\<close>

definition zeros :: "nat \<Rightarrow> nat \<Rightarrow> 'a::zero ndarray" where
  "zeros m d = \<lparr>nrows = m, ncols = d, rows = replicate m (replicate d 0)\<rparr>"

text \<open>
  \<^verbatim>\<open>np.hstack((A, B))\<close> on 2-D arrays joins the rows of \<open>A\<close> and \<open>B\<close> pairwise; numpy raises
  \<^verbatim>\<open>ValueError\<close> when the row counts differ (its message is shortened here).
\<close>

definition hstack :: "'a ndarray \<Rightarrow> 'a ndarray \<Rightarrow> py_error + 'a ndarray" where
  "hstack A B =
     (if nrows A \<noteq> nrows B then Inl (ValueError ''array dimensions must match'')
      else Inr \<lparr>nrows = nrows A, ncols = ncols A + ncols B,
                rows = map2 (@) (rows A) (rows B)\<rparr>)"

text \<open>\<^verbatim>\<open>A[:m]\<close>: the first \<open>m\<close> rows, or all of them when there are fewer.\<close>

definition take_rows :: "nat \<Rightarrow> 'a ndarray \<Rightarrow> 'a ndarray" where
  "take_rows m A =
     (let rs = py_slice (rows A) 0 (int m) in \<lparr>nrows = length rs, ncols = ncols A, rows = rs\<rparr>)"

text \<open>\<^verbatim>\<open>A[i]\<close> for \<open>i \<ge> 0\<close>: numpy raises \<^verbatim>\<open>IndexError\<close> when there is no row \<open>i\<close>.\<close>

definition getrow :: "'a ndarray \<Rightarrow> nat \<Rightarrow> py_error + 'a list" where
  "getrow A i = (if i < nrows A then Inr (rows A ! i) else Inl IndexError)"

text \<open>\<^verbatim>\<open>np.array([xs])\<close>, \<^verbatim>\<open>A.T\<close> and \<^verbatim>\<open>np.reshape(xs, (xs.shape[0], 1))\<close>.\<close>

definition array_of_row :: "'a list \<Rightarrow> 'a ndarray" where
  "array_of_row xs = \<lparr>nrows = 1, ncols = length xs, rows = [xs]\<rparr>"

definition transpose_array :: "'a ndarray \<Rightarrow> 'a ndarray" where
  "transpose_array A =
     \<lparr>nrows = ncols A, ncols = nrows A,
      rows = map (\<lambda>t. map (\<lambda>r. r ! t) (rows A)) [0..<ncols A]\<rparr>"

definition reshape_column :: "'a list \<Rightarrow> 'a ndarray" where
  "reshape_column xs = \<lparr>nrows = length xs, ncols = 1, rows = map (\<lambda>x. [x]) xs\<rparr>"

subsection \<open>The function\<close>

text \<open>
  A \<^verbatim>\<open>for\<close> loop over a list that updates one variable; an exception in the body ends the
  loop.
\<close>

fun for_each :: "('s \<Rightarrow> 'a \<Rightarrow> 'e + 's) \<Rightarrow> 'a list \<Rightarrow> 's \<Rightarrow> 'e + 's" where
  "for_each body [] s = Inr s"
| "for_each body (x # xs) s =
     (case body s x of Inl err \<Rightarrow> Inl err | Inr s' \<Rightarrow> for_each body xs s')"

text \<open>
  The body of the inner loop of \<^verbatim>\<open>prepare_stimuli\<close>, for channel \<open>i\<close> and lag \<open>j\<close>:
  \<^verbatim>\<open>continue\<close> at \<open>(0, 0)\<close>, else append the column
  \<^verbatim>\<open>stim_data[i][d - j: length_stim - j]\<close> to \<^verbatim>\<open>stim_matrix\<close>.
\<close>

definition append_lag ::
  "'a ndarray \<Rightarrow> nat \<Rightarrow> nat \<Rightarrow> nat \<Rightarrow> 'a ndarray \<Rightarrow> nat \<Rightarrow> py_error + 'a ndarray" where
  "append_lag stim_data length_stim d i stim_matrix j =
     (if i = 0 \<and> j = 0 then Inr stim_matrix
      else case getrow stim_data i of
        Inl err \<Rightarrow> Inl err
      | Inr r \<Rightarrow>
          let new = py_slice r (int d - int j) (int length_stim - int j)
          in hstack stim_matrix (reshape_column new))"

text \<open>
  \<^verbatim>\<open>prepare_stimuli(stim_signal, interval, m, d)\<close>. The argument \<open>ep\<close> of the model is the
  channels-by-samples array \<^verbatim>\<open>stim_signal.extract_epoch(np.array([list(interval)]))[0]\<close> that
  the external signal library returns for the interval; \<open>m\<close> and \<open>d\<close> are the channel count
  and the lag depth, both natural numbers.
\<close>

definition prepare_stimuli :: "'a::zero ndarray \<Rightarrow> nat \<Rightarrow> nat \<Rightarrow> py_error + 'a ndarray" where
  "prepare_stimuli ep m d =
     (case (if d > 0 then hstack (zeros m d) (take_rows m ep) else Inr (take_rows m ep)) of
        Inl err \<Rightarrow> Inl err
      | Inr stim_data \<Rightarrow>
          let length_stim = ncols stim_data in
          case getrow stim_data 0 of
            Inl err \<Rightarrow> Inl err
          | Inr row0 \<Rightarrow>
              let stim_matrix =
                transpose_array (array_of_row (py_slice row0 (int d) (int length_stim)))
              in for_each
                   (\<lambda>stim_matrix i.
                      for_each (append_lag stim_data length_stim d i) [0..<d + 1] stim_matrix)
                   [0..<m] stim_matrix)"

subsection \<open>Notions used to describe the result\<close>

text \<open>
  The column of lag \<open>j\<close> of a series \<open>x\<close> over \<open>T\<close> rows: row \<open>t\<close> holds \<open>x\<close> at time \<open>t - j\<close>,
  and zero before the series starts.
\<close>

definition lag_column :: "'a::zero list \<Rightarrow> nat \<Rightarrow> nat \<Rightarrow> 'a list" where
  "lag_column x j T = map (\<lambda>t. if t < j then 0 else x ! (t - j)) [0..<T]"

text \<open>The array with \<open>T\<close> rows whose columns are the lists \<open>cs\<close>, left to right.\<close>

definition array_of_columns :: "nat \<Rightarrow> 'a list list \<Rightarrow> 'a ndarray" where
  "array_of_columns T cs =
     \<lparr>nrows = T, ncols = length cs, rows = map (\<lambda>t. map (\<lambda>c. c ! t) cs) [0..<T]\<rparr>"

text \<open>
  The padded series: the first \<open>m\<close> channels of \<open>ep\<close>, each with \<open>d\<close> zeros in front. This is
  the value of \<^verbatim>\<open>stim_data\<close> after the padding step (lemma \<open>stim_data_padded\<close>).
\<close>

definition padded_data :: "'a::zero ndarray \<Rightarrow> nat \<Rightarrow> nat \<Rightarrow> 'a ndarray" where
  "padded_data ep m d =
     \<lparr>nrows = m, ncols = d + ncols ep,
      rows = map (\<lambda>r. replicate d 0 @ r) (take m (rows ep))\<rparr>"

text \<open>The columns one pass of the inner loop appends for channel \<open>i\<close>.\<close>

definition channel_columns :: "'a::zero ndarray \<Rightarrow> nat \<Rightarrow> nat \<Rightarrow> 'a list list" where
  "channel_columns ep d i =
     map (\<lambda>j. lag_column (rows ep ! i) j (ncols ep)) (filter (\<lambda>j. \<not> (i = 0 \<and> j = 0)) [0..<d + 1])"

text \<open>All lag columns, channel by channel and lag by lag.\<close>

definition lagged_columns :: "'a::zero ndarray \<Rightarrow> nat \<Rightarrow> nat \<Rightarrow> 'a list list" where
  "lagged_columns ep m d =
     map (\<lambda>(i, j). lag_column (rows ep ! i) j (ncols ep)) (List.product [0..<m] [0..<d + 1])"

section \<open>The trial ledger: \<^verbatim>\<open>save_results\<close>\<close>

subsection \<open>Text\<close>

text \<open>Python strings are lists of characters.\<close>

abbreviation newline :: char where
  "newline \<equiv> CHR 0x0A"

abbreviation tab :: char where
  "tab \<equiv> CHR 0x09"

abbreviation carriage_return :: char where
  "carriage_return \<equiv> CHR 0x0D"

text \<open>
  The ledger is opened in text mode with Python's default newline handling. What a read
  returns is the file's content with every carriage return, alone or followed by a
  newline, replaced by one newline. A write stores the text as it is (the platform's line
  separator is taken to be the newline character).
\<close>

fun universal_newlines :: "string \<Rightarrow> string" where
  "universal_newlines [] = []"
| "universal_newlines [c] = [if c = carriage_return then newline else c]"
| "universal_newlines (c # d # cs) =
     (if c = carriage_return \<and> d = newline then newline # universal_newlines cs
      else if c = carriage_return then newline # universal_newlines (d # cs)
      else c # universal_newlines (d # cs))"

text \<open>
  The state of the file at \<^verbatim>\<open>file_path\<close> is its stored content, or \<open>None\<close> when the file
  does not exist. \<^verbatim>\<open>read_text\<close> is what \<^verbatim>\<open>file.read()\<close> returns for it.
\<close>

definition read_text :: "string option \<Rightarrow> string" where
  "read_text ledger = (case ledger of None \<Rightarrow> [] | Some raw \<Rightarrow> universal_newlines raw)"

text \<open>\<^verbatim>\<open>str(n)\<close> for a Python integer: its decimal digits, after a minus sign when negative.\<close>

definition digit_char :: "nat \<Rightarrow> char" where
  "digit_char k = ''0123456789'' ! k"

fun str_nat :: "nat \<Rightarrow> string" where
  "str_nat n = (if n < 10 then [digit_char n] else str_nat (n div 10) @ [digit_char (n mod 10)])"

declare str_nat.simps [simp del]

definition str_int :: "int \<Rightarrow> string" where
  "str_int i = (if i < 0 then CHR ''-'' # str_nat (nat (- i)) else str_nat (nat i))"

text \<open>
  \<^verbatim>\<open>int(c)\<close> for a string of one character: the digit's value, and \<^verbatim>\<open>ValueError\<close> for any
  other character (the digits are the ASCII ones).
\<close>

definition int_of_char :: "char \<Rightarrow> py_error + int" where
  "int_of_char c =
     (if c \<in> set ''0123456789'' then Inr (int (of_char c) - 48)
      else Inl (ValueError ''invalid literal for int() with base 10''))"

text \<open>
  \<^verbatim>\<open>sep.join(xs)\<close>, \<^verbatim>\<open>content.split("\n")\<close> and the split of a text into lines that keeps
  each line's newline, as \<^verbatim>\<open>file.readlines()\<close> returns them.
\<close>

fun py_join :: "string \<Rightarrow> string list \<Rightarrow> string" where
  "py_join sep [] = []"
| "py_join sep [x] = x"
| "py_join sep (x # y # ys) = x @ sep @ py_join sep (y # ys)"

fun split_newline :: "string \<Rightarrow> string list" where
  "split_newline [] = [[]]"
| "split_newline (c # cs) =
     (if c = newline then [] # split_newline cs
      else case split_newline cs of
        [] \<Rightarrow> [[c]]
      | l # ls \<Rightarrow> (c # l) # ls)"

fun readlines :: "string \<Rightarrow> string list" where
  "readlines [] = []"
| "readlines (c # cs) =
     (if c = newline then [newline] # readlines cs
      else case readlines cs of
        [] \<Rightarrow> [[c]]
      | l # ls \<Rightarrow> (c # l) # ls)"

subsection \<open>The record and the functions\<close>

text \<open>
  The dataclass \<^verbatim>\<open>RecordingData\<close>. Its numbers (numpy entries and floats) have the type
  \<open>'n\<close>; how Python prints one, \<^verbatim>\<open>str(x)\<close>, is a parameter \<open>str\<close> of the functions that
  format them. The fields carry the prefix \<open>rd_\<close>.
\<close>

record 'n recording_data =
  rd_coefficients :: "'n list"
  rd_intercepts :: "'n list"
  rd_d :: int
  rd_m :: int
  rd_r2 :: 'n
  rd_mae :: 'n
  rd_mse :: 'n
  rd_function :: string

text \<open>\<^verbatim>\<open>open_file\<close> returns the text read and creates a missing file empty.\<close>

definition open_file :: "string option \<Rightarrow> string \<times> string option" where
  "open_file ledger =
     (case ledger of
        None \<Rightarrow> (read_text (Some []), Some [])
      | Some raw \<Rightarrow> (read_text (Some raw), Some raw))"

definition result_text :: "('n \<Rightarrow> string) \<Rightarrow> 'n recording_data \<Rightarrow> int \<Rightarrow> string" where
  "result_text str results n =
     (let coefficients = ''['' @ py_join '', '' (map str (rd_coefficients results)) @ '']'';
          intercepts = ''['' @ py_join '', '' (map str (rd_intercepts results)) @ '']''
      in ''Trial: n='' @ str_int n @ '', m='' @ str_int (rd_m results)
           @ '', d='' @ str_int (rd_d results) @ [newline]
         @ ''Results:'' @ [newline]
         @ [tab] @ ''Coefficients: '' @ coefficients @ [newline]
         @ [tab] @ ''Intercepts: '' @ intercepts @ [newline]
         @ [tab] @ ''R2: '' @ str (rd_r2 results) @ [newline]
         @ [tab] @ ''MSE: '' @ str (rd_mse results) @ [newline]
         @ [tab] @ ''MAE: '' @ str (rd_mae results) @ [newline]
         @ [tab] @ ''Function: '' @ rd_function results @ [newline])"

text \<open>
  \<^verbatim>\<open>save_results(results, file_path)\<close>: the new state of the file, or the exception raised
  by \<^verbatim>\<open>prev_text[0][-1]\<close> on an empty first line or by \<^verbatim>\<open>int\<close> on a character that is no
  digit. The trial number read is the last character of the first line. The lines written
  back are the lines read, so they hold the text after the newline replacement.
\<close>

definition save_results ::
  "('n \<Rightarrow> string) \<Rightarrow> 'n recording_data \<Rightarrow> string option \<Rightarrow> py_error + string option" where
  "save_results str results ledger =
     (let (content, file1) = open_file ledger in
      case
        (if length content \<noteq> 0 then
           let prev_text = split_newline content in
           if hd prev_text = [] then Inl IndexError
           else case int_of_char (last (hd prev_text)) of
             Inl err \<Rightarrow> Inl err
           | Inr n_trial \<Rightarrow>
               let lines = readlines (read_text file1);
                   line0 = py_slice (hd lines) 0 (- 2) @ str_int (n_trial + 1) @ [newline]
               in Inr (n_trial, Some (concat (line0 # tl lines)))
         else Inr (0, file1))
      of
        Inl err \<Rightarrow> Inl err
      | Inr (n_trial0, file2) \<Rightarrow>
          let n_trial = n_trial0 + 1;
              new_trial = result_text str results n_trial;
              existing = (case file2 of None \<Rightarrow> [] | Some t \<Rightarrow> t)
          in Inr (Some (existing
                 @ (if n_trial = 1 then ''N: '' @ str_int n_trial @ [newline] else [])
                 @ new_trial)))"

text \<open>Calls of \<^verbatim>\<open>save_results\<close> one after the other on the same file.\<close>

fun save_all ::
  "('n \<Rightarrow> string) \<Rightarrow> 'n recording_data list \<Rightarrow> string option \<Rightarrow> py_error + string option" where
  "save_all str [] ledger = Inr ledger"
| "save_all str (r # rs) ledger =
     (case save_results str r ledger of Inl err \<Rightarrow> Inl err | Inr ledger' \<Rightarrow> save_all str rs ledger')"

text \<open>
  The record of the module's \<^verbatim>\<open>__main__\<close> block, with each number as Python prints it (so
  that \<open>str\<close> is the identity), and the same record with a carriage return in its function
  text.
\<close>

definition test_result :: "string recording_data" where
  "test_result =
     \<lparr>rd_coefficients = [''0'', ''1'', ''2''], rd_intercepts = [''0''], rd_d = 1, rd_m = 2,
      rd_r2 = ''1.3'', rd_mae = ''4.432'', rd_mse = ''5.432'', rd_function = ''test_function''\<rparr>"


subsection \<open>Notions used to describe a ledger\<close>

text \<open>
  The blocks of the records \<open>rs\<close>, numbered from \<open>n\<close> on, as \<^verbatim>\<open>result_text\<close> formats them; and
  the text that stands after the counter line once these blocks have been appended by
  calls that each rewrite what was there before.
\<close>

fun trial_blocks :: "('n \<Rightarrow> string) \<Rightarrow> 'n recording_data list \<Rightarrow> int \<Rightarrow> string" where
  "trial_blocks str [] n = []"
| "trial_blocks str (r # rs) n = result_text str r n @ trial_blocks str rs (n + 1)"

fun ledger_body :: "('n \<Rightarrow> string) \<Rightarrow> 'n recording_data list \<Rightarrow> int \<Rightarrow> string \<Rightarrow> string" where
  "ledger_body str [] n rest = rest"
| "ledger_body str (r # rs) n rest =
     ledger_body str rs (n + 1) (universal_newlines rest @ result_text str r n)"

text \<open>
  The first line of a text (without its newline), the text after the first line, and the
  number \<open>k\<close> of a first line that reads \<^verbatim>\<open>N: <k>\<close>.
\<close>

definition first_line :: "string \<Rightarrow> string" where
  "first_line content = takeWhile (\<lambda>c. c \<noteq> newline) content"


definition is_digit :: "char \<Rightarrow> bool" where
  "is_digit c \<longleftrightarrow> c \<in> set ''0123456789''"




section \<open>Facts about slicing and rational floors\<close>

lemma floor_rat_numeral [simp]:
  "\<lfloor>(numeral u :: rat) / numeral v\<rfloor> = numeral u div numeral v"
  using floor_divide_of_int_eq [of "numeral u" "numeral v", where ?'a = rat] by simp

lemma floor_rat_neg_numeral [simp]:
  "\<lfloor>- ((numeral u :: rat) / numeral v)\<rfloor> = - numeral u div numeral v"
  using floor_divide_of_int_eq [of "- numeral u" "numeral v", where ?'a = rat] by simp

lemma floor_rat_minus_one [simp]: "\<lfloor>- 1 :: rat\<rfloor> = - 1"
  using floor_of_int [of "- 1", where ?'a = rat] by simp





section \<open>The epoch resolver\<close>



text \<open>
  Claim C6 says that \<^verbatim>\<open>time_to_stimuli\<close> fails only when the start is negative or the end
  index lies past the epochs, and then with an out-of-range error. The interval
  (0.0, inf) has a start that is not negative and no end index at all: \<^verbatim>\<open>math.floor\<close> raises
  \<^verbatim>\<open>OverflowError\<close> on the infinite quotient, and the call fails with it.
\<close>

theorem time_to_stimuli_infinite_end_counterexample:
  "\<not> float_lt (Finite 0) (Finite 0)
   \<and> math_floor (float_div PosInf (3 / 2))
       = Inl (OverflowError ''cannot convert float infinity to integer'')
   \<and> time_to_stimuli [''STIM_00a''] (Finite 0, PosInf)
       = Inl (OverflowError ''cannot convert float infinity to integer'')"
  by (simp add: time_to_stimuli_def)

text \<open>
  Claim C6, amended. \<^verbatim>\<open>time_to_stimuli\<close> fails exactly when the start is negative, or a
  bound is NaN or infinite, or the end index exceeds \<open>n - 1\<close> without being equal to \<open>n\<close>
  (the number of matching epoch names); in every other case it returns. A negative start
  (minus infinity included) gives the \<^verbatim>\<open>ValueError\<close> of the start check. Otherwise a bound
  that is NaN gives the \<^verbatim>\<open>ValueError\<close> of \<^verbatim>\<open>math.floor\<close> and an infinite one its
  \<^verbatim>\<open>OverflowError\<close>, the start being converted before the end. An end index out of range
  gives the \<^verbatim>\<open>ValueError\<close> of the end check. The interval (-1.0, 5.0) fails whatever the epochs
  are.
\<close>

theorem time_to_stimuli_failures:
  "(isl (time_to_stimuli eps (x, y)) \<longleftrightarrow>
      float_lt x (Finite 0) \<or> \<not> float_finite x \<or> \<not> float_finite y
      \<or> (\<exists>b. y = Finite b \<and> \<lfloor>b / (3 / 2)\<rfloor> > int (length eps) - 1
              \<and> \<lfloor>b / (3 / 2)\<rfloor> \<noteq> int (length eps)))
   \<and> (float_lt x (Finite 0) \<longrightarrow>
        time_to_stimuli eps (x, y) = Inl (ValueError ''Start Index out of range''))
   \<and> (x = NaN \<longrightarrow>
        time_to_stimuli eps (x, y) = Inl (ValueError ''cannot convert float NaN to integer''))
   \<and> (x = PosInf \<longrightarrow>
        time_to_stimuli eps (x, y)
          = Inl (OverflowError ''cannot convert float infinity to integer''))
   \<and> (x = Finite a \<and> 0 \<le> a \<and> y = NaN \<longrightarrow>
        time_to_stimuli eps (x, y) = Inl (ValueError ''cannot convert float NaN to integer''))
   \<and> (x = Finite a \<and> 0 \<le> a \<and> (y = PosInf \<or> y = NegInf) \<longrightarrow>
        time_to_stimuli eps (x, y)
          = Inl (OverflowError ''cannot convert float infinity to integer''))
   \<and> (x = Finite a \<and> 0 \<le> a \<and> y = Finite b \<and> \<lfloor>b / (3 / 2)\<rfloor> > int (length eps) - 1
         \<and> \<lfloor>b / (3 / 2)\<rfloor> \<noteq> int (length eps) \<longrightarrow>
        time_to_stimuli eps (x, y) = Inl (ValueError ''End Index out of range''))
   \<and> time_to_stimuli eps (Finite (- 1), Finite 5) = Inl (ValueError ''Start Index out of range'')"
proof -
  have iff: "isl (time_to_stimuli eps (x, y)) \<longleftrightarrow>
      float_lt x (Finite 0) \<or> \<not> float_finite x \<or> \<not> float_finite y
      \<or> (\<exists>b. y = Finite b \<and> \<lfloor>b / (3 / 2)\<rfloor> > int (length eps) - 1
              \<and> \<lfloor>b / (3 / 2)\<rfloor> \<noteq> int (length eps))"
    by (cases x; cases y) (auto simp add: time_to_stimuli_def float_finite_def Let_def)
  have start: "time_to_stimuli eps (x, y) = Inl (ValueError ''Start Index out of range'')"
    if "float_lt x (Finite 0)"
    using that by (simp add: time_to_stimuli_def)
  have rest: "x = NaN \<longrightarrow>
        time_to_stimuli eps (x, y) = Inl (ValueError ''cannot convert float NaN to integer'')"
    "x = PosInf \<longrightarrow>
        time_to_stimuli eps (x, y)
          = Inl (OverflowError ''cannot convert float infinity to integer'')"
    "x = Finite a \<and> 0 \<le> a \<and> y = NaN \<longrightarrow>
        time_to_stimuli eps (x, y) = Inl (ValueError ''cannot convert float NaN to integer'')"
    "x = Finite a \<and> 0 \<le> a \<and> (y = PosInf \<or> y = NegInf) \<longrightarrow>
        time_to_stimuli eps (x, y)
          = Inl (OverflowError ''cannot convert float infinity to integer'')"
    "x = Finite a \<and> 0 \<le> a \<and> y = Finite b \<and> \<lfloor>b / (3 / 2)\<rfloor> > int (length eps) - 1
         \<and> \<lfloor>b / (3 / 2)\<rfloor> \<noteq> int (length eps) \<longrightarrow>
        time_to_stimuli eps (x, y) = Inl (ValueError ''End Index out of range'')"
    "time_to_stimuli eps (Finite (- 1), Finite 5) = Inl (ValueError ''Start Index out of range'')"
    by (auto simp add: time_to_stimuli_def Let_def)
  from iff start rest show ?thesis
    by blast
qed

theorem time_to_stimuli_failures_witness:
  "isl (time_to_stimuli [''STIM_00a''] (Finite 0, Finite 6))
   \<and> \<not> isl (time_to_stimuli [''STIM_00a''] (Finite 0, Finite 1))
   \<and> time_to_stimuli [''STIM_00a''] (Finite 0, NaN)
       = Inl (ValueError ''cannot convert float NaN to integer'')
   \<and> time_to_stimuli [''STIM_00a''] (NegInf, Finite 1)
       = Inl (ValueError ''Start Index out of range'')"
  using time_to_stimuli_failures [of "[''STIM_00a'']" "Finite 0" "Finite 6" 0 6]
    time_to_stimuli_failures [of "[''STIM_00a'']" "Finite 0" "Finite 1" 0 1]
    time_to_stimuli_failures [of "[''STIM_00a'']" "Finite 0" NaN 0 0]
    time_to_stimuli_failures [of "[''STIM_00a'']" NegInf "Finite 1" 0 0]
  by (simp add: float_finite_def)




section \<open>Facts about the design matrix\<close>

text \<open>
  The loops of \<^verbatim>\<open>prepare_stimuli\<close> are followed on the array of the columns built so far:
  each pass of the inner loop adds the lag columns of one channel.
\<close>

lemma py_slice_nat: "py_slice xs (int a) (int b) = drop a (take b xs)"
  by (simp add: py_slice_def norm_index_def min_def)

lemma py_slice_lag:
  assumes "j \<le> d" and "length x = T"
  shows "py_slice (replicate d 0 @ x) (int d - int j) (int (d + T) - int j) = lag_column x j T"
proof -
  have idx: "int d - int j = int (d - j)" "int (d + T) - int j = int (d + T - j)"
    using assms(1) by simp_all
  have "drop (d - j) (take (d + T - j) (replicate d 0 @ x)) = lag_column x j T"
  proof (rule nth_equalityI)
    show "length (drop (d - j) (take (d + T - j) (replicate d 0 @ x))) = length (lag_column x j T)"
      using assms by (simp add: lag_column_def)
  next
    fix t
    assume "t < length (drop (d - j) (take (d + T - j) (replicate d 0 @ x)))"
    then have t: "t < T"
      using assms by simp
    have "drop (d - j) (take (d + T - j) (replicate d 0 @ x)) ! t
        = take (d + T - j) (replicate d 0 @ x) ! (d - j + t)"
      using assms by (intro nth_drop) simp
    also have "\<dots> = (replicate d 0 @ x) ! (d - j + t)"
      using assms t by (intro nth_take) arith
    also have "\<dots> = (if t < j then 0 else x ! (t - j))"
      using assms t by (auto simp add: nth_append)
    finally show "drop (d - j) (take (d + T - j) (replicate d 0 @ x)) ! t = lag_column x j T ! t"
      using t by (simp add: lag_column_def)
  qed
  then show ?thesis
    unfolding idx py_slice_nat .
qed

lemma length_lag_column [simp]: "length (lag_column x j T) = T"
  by (simp add: lag_column_def)

lemma nth_lag_column: "t < T \<Longrightarrow> lag_column x j T ! t = (if t < j then 0 else x ! (t - j))"
  by (simp add: lag_column_def)

lemma hstack_column:
  assumes "length c = T"
  shows "hstack (array_of_columns T cs) (reshape_column c) = Inr (array_of_columns T (cs @ [c]))"
proof -
  have "map2 (@) (map (\<lambda>t. map (\<lambda>c. c ! t) cs) [0..<T]) (map (\<lambda>x. [x]) c)
      = map (\<lambda>t. map (\<lambda>c. c ! t) (cs @ [c])) [0..<T]"
    using assms by (intro nth_equalityI) simp_all
  then show ?thesis
    using assms by (simp add: hstack_def array_of_columns_def reshape_column_def)
qed

lemma transpose_row: "transpose_array (array_of_row c) = array_of_columns (length c) [c]"
  by (simp add: transpose_array_def array_of_row_def array_of_columns_def)

lemma for_each_append:
  "for_each body (xs @ ys) s =
     (case for_each body xs s of Inl err \<Rightarrow> Inl err | Inr s' \<Rightarrow> for_each body ys s')"
  by (induction xs arbitrary: s) (auto split: sum.splits)

lemma append_lag_padded:
  assumes "i < m" and "j \<le> d" and "length (rows ep ! i) = ncols ep" and "m \<le> length (rows ep)"
    and "list_all (\<lambda>c. length c = ncols ep) cs"
  shows "append_lag (padded_data ep m d) (d + ncols ep) d i (array_of_columns (ncols ep) cs) j
     = Inr (array_of_columns (ncols ep)
             (cs @ (if i = 0 \<and> j = 0 then [] else [lag_column (rows ep ! i) j (ncols ep)])))"
proof (cases "i = 0 \<and> j = 0")
  case True
  then show ?thesis by (simp add: append_lag_def)
next
  case False
  have row: "getrow (padded_data ep m d) i = Inr (replicate d 0 @ rows ep ! i)"
    using assms(1,4) by (simp add: getrow_def padded_data_def)
  show ?thesis
    using False assms(2,3)
    by (simp only: append_lag_def row sum.case Let_def py_slice_lag hstack_column
          length_lag_column if_False)
qed

lemma inner_loop_padded:
  assumes "i < m" and "\<forall>j \<in> set js. j \<le> d" and "length (rows ep ! i) = ncols ep"
    and "m \<le> length (rows ep)" and "list_all (\<lambda>c. length c = ncols ep) cs"
  shows "for_each (append_lag (padded_data ep m d) (d + ncols ep) d i) js
           (array_of_columns (ncols ep) cs)
     = Inr (array_of_columns (ncols ep)
             (cs @ map (\<lambda>j. lag_column (rows ep ! i) j (ncols ep))
                     (filter (\<lambda>j. \<not> (i = 0 \<and> j = 0)) js)))"
  using assms(2,5)
proof (induction js arbitrary: cs)
  case Nil
  then show ?case by simp
next
  case (Cons j js)
  have step: "append_lag (padded_data ep m d) (d + ncols ep) d i (array_of_columns (ncols ep) cs) j
     = Inr (array_of_columns (ncols ep)
             (cs @ (if i = 0 \<and> j = 0 then [] else [lag_column (rows ep ! i) j (ncols ep)])))"
    using Cons.prems assms(1,3,4) by (intro append_lag_padded) simp_all
  have "list_all (\<lambda>c. length c = ncols ep)
          (cs @ (if i = 0 \<and> j = 0 then [] else [lag_column (rows ep ! i) j (ncols ep)]))"
    using Cons.prems(2) by simp
  moreover have "\<forall>j \<in> set js. j \<le> d"
    using Cons.prems(1) by simp
  ultimately have "for_each (append_lag (padded_data ep m d) (d + ncols ep) d i) js
           (array_of_columns (ncols ep)
              (cs @ (if i = 0 \<and> j = 0 then [] else [lag_column (rows ep ! i) j (ncols ep)])))
     = Inr (array_of_columns (ncols ep)
             ((cs @ (if i = 0 \<and> j = 0 then [] else [lag_column (rows ep ! i) j (ncols ep)]))
               @ map (\<lambda>j. lag_column (rows ep ! i) j (ncols ep))
                     (filter (\<lambda>j. \<not> (i = 0 \<and> j = 0)) js)))"
    by (rule Cons.IH [rotated])
  then show ?case
    by (simp add: step)
qed

lemma channel_columns_lengths: "list_all (\<lambda>c. length c = ncols ep) (channel_columns ep d i)"
  by (simp add: channel_columns_def list_all_iff)

lemma outer_loop_padded:
  assumes "\<forall>i \<in> set is. i < m" and "\<forall>i < m. length (rows ep ! i) = ncols ep"
    and "m \<le> length (rows ep)" and "list_all (\<lambda>c. length c = ncols ep) cs"
  shows "for_each (\<lambda>stim_matrix i.
             for_each (append_lag (padded_data ep m d) (d + ncols ep) d i) [0..<d + 1] stim_matrix)
           is (array_of_columns (ncols ep) cs)
     = Inr (array_of_columns (ncols ep) (cs @ concat (map (channel_columns ep d) is)))"
  using assms(1,4)
proof (induction "is" arbitrary: cs)
  case Nil
  then show ?case by simp
next
  case (Cons i "is")
  have i: "i < m"
    using Cons.prems(1) by simp
  have inner: "for_each (append_lag (padded_data ep m d) (d + ncols ep) d i) [0..<d + 1]
           (array_of_columns (ncols ep) cs)
     = Inr (array_of_columns (ncols ep) (cs @ channel_columns ep d i))"
    unfolding channel_columns_def
    using i assms(2,3) Cons.prems(2) by (intro inner_loop_padded) auto
  have "list_all (\<lambda>c. length c = ncols ep) (cs @ channel_columns ep d i)"
    using Cons.prems(2) channel_columns_lengths [of ep d i] by simp
  moreover have "\<forall>i \<in> set is. i < m"
    using Cons.prems(1) by simp
  ultimately have "for_each (\<lambda>stim_matrix i.
             for_each (append_lag (padded_data ep m d) (d + ncols ep) d i) [0..<d + 1] stim_matrix)
           is (array_of_columns (ncols ep) (cs @ channel_columns ep d i))
     = Inr (array_of_columns (ncols ep)
             ((cs @ channel_columns ep d i) @ concat (map (channel_columns ep d) is)))"
    by (rule Cons.IH [rotated])
  then show ?case
    by (simp only: for_each.simps inner sum.case list.map concat.simps append_assoc)
qed

lemma channel_columns_first:
  "lag_column (rows ep ! 0) 0 (ncols ep) # channel_columns ep d 0
     = map (\<lambda>j. lag_column (rows ep ! 0) j (ncols ep)) [0..<d + 1]"
proof -
  have "filter (\<lambda>j. j \<noteq> 0) [Suc 0..<Suc d] = [Suc 0..<Suc d]"
    by (rule filter_True) auto
  then show ?thesis
    by (simp add: channel_columns_def upt_conv_Cons del: upt_Suc)
qed

lemma channel_columns_later:
  "0 < i \<Longrightarrow> channel_columns ep d i = map (\<lambda>j. lag_column (rows ep ! i) j (ncols ep)) [0..<d + 1]"
  by (simp add: channel_columns_def)

lemma lagged_columns_loop:
  assumes "1 \<le> m"
  shows "[lag_column (rows ep ! 0) 0 (ncols ep)] @ concat (map (channel_columns ep d) [0..<m])
     = lagged_columns ep m d"
proof -
  have split: "[0..<m] = 0 # [1..<m]"
    using assms by (simp add: upt_conv_Cons)
  have later: "map (channel_columns ep d) [1..<m]
      = map (\<lambda>i. map (\<lambda>j. lag_column (rows ep ! i) j (ncols ep)) [0..<d + 1]) [1..<m]"
    by (rule map_cong) (simp_all add: channel_columns_later)
  have "lagged_columns ep m d
      = concat (map (\<lambda>i. map (\<lambda>j. lag_column (rows ep ! i) j (ncols ep)) [0..<d + 1]) [0..<m])"
    by (simp add: lagged_columns_def product_concat_map map_concat comp_def)
  also have "\<dots> = map (\<lambda>j. lag_column (rows ep ! 0) j (ncols ep)) [0..<d + 1]
      @ concat (map (\<lambda>i. map (\<lambda>j. lag_column (rows ep ! i) j (ncols ep)) [0..<d + 1]) [1..<m])"
    by (simp only: split list.map concat.simps)
  also have "\<dots> = [lag_column (rows ep ! 0) 0 (ncols ep)]
      @ concat (map (channel_columns ep d) [0..<m])"
    by (simp only: split list.map concat.simps later channel_columns_first [symmetric]
        append_Cons append_Nil)
  finally show ?thesis by simp
qed

lemma take_rows_all: "wf_array ep \<Longrightarrow> m \<le> nrows ep \<Longrightarrow>
    take_rows m ep = \<lparr>nrows = m, ncols = ncols ep, rows = take m (rows ep)\<rparr>"
  using py_slice_nat [of "rows ep" 0 m] by (simp add: take_rows_def wf_array_def Let_def)

lemma stim_data_padded:
  assumes "wf_array ep" and "m \<le> nrows ep"
  shows "(if d > 0 then hstack (zeros m d) (take_rows m ep) else Inr (take_rows m ep))
     = Inr (padded_data ep m d)"
proof (cases "d > 0")
  case True
  have "map2 (@) (replicate m (replicate d 0)) (take m (rows ep))
      = map (\<lambda>r. replicate d 0 @ r) (take m (rows ep))"
    using assms by (intro nth_equalityI) (simp_all add: wf_array_def)
  then show ?thesis
    using True assms by (simp add: take_rows_all hstack_def zeros_def padded_data_def)
next
  case False
  then show ?thesis
    using assms by (simp add: take_rows_all padded_data_def)
qed

lemma prepare_stimuli_columns:
  assumes "wf_array ep" and "1 \<le> m" and "m \<le> nrows ep"
  shows "prepare_stimuli ep m d = Inr (array_of_columns (ncols ep) (lagged_columns ep m d))"
proof -
  have len: "m \<le> length (rows ep)" and rows: "\<forall>i < m. length (rows ep ! i) = ncols ep"
    using assms by (simp_all add: wf_array_def list_all_length)
  have row0: "getrow (padded_data ep m d) 0 = Inr (replicate d 0 @ rows ep ! 0)"
    using assms(2) len by (simp add: getrow_def padded_data_def)
  have first: "py_slice (replicate d 0 @ rows ep ! 0) (int d) (int (d + ncols ep))
      = lag_column (rows ep ! 0) 0 (ncols ep)"
    using py_slice_lag [of 0 d "rows ep ! 0" "ncols ep"] rows assms(2) by simp
  have loop: "for_each (\<lambda>stim_matrix i.
             for_each (append_lag (padded_data ep m d) (d + ncols ep) d i) [0..<d + 1] stim_matrix)
           [0..<m] (array_of_columns (ncols ep) [lag_column (rows ep ! 0) 0 (ncols ep)])
     = Inr (array_of_columns (ncols ep)
             ([lag_column (rows ep ! 0) 0 (ncols ep)] @ concat (map (channel_columns ep d) [0..<m])))"
    using rows len by (intro outer_loop_padded) simp_all
  have ncols_padded: "ncols (padded_data ep m d) = d + ncols ep"
    by (simp add: padded_data_def)
  show ?thesis
    unfolding prepare_stimuli_def stim_data_padded [OF assms(1,3)]
    by (simp only: sum.case Let_def row0 ncols_padded first transpose_row length_lag_column loop
        lagged_columns_loop [OF assms(2)])
qed

lemma pair_index_bound:
  fixes i m j d :: nat
  assumes "i < m" and "j \<le> d"
  shows "i * (d + 1) + j < m * (d + 1)"
proof -
  have "Suc i * (d + 1) \<le> m * (d + 1)"
    using assms(1) by (intro mult_le_mono1) simp
  moreover have "i * (d + 1) + j < Suc i * (d + 1)"
    using assms(2) by simp
  ultimately show ?thesis
    by (rule less_le_trans [rotated])
qed

lemma length_lagged_columns: "length (lagged_columns ep m d) = m * (d + 1)"
  by (simp add: lagged_columns_def)

lemma nth_lagged_columns:
  assumes "i < m" and "j \<le> d"
  shows "lagged_columns ep m d ! (i * (d + 1) + j) = lag_column (rows ep ! i) j (ncols ep)"
proof -
  define k where "k = i * (d + 1) + j"
  have bound: "k < m * (d + 1)"
    unfolding k_def using assms by (rule pair_index_bound)
  have j: "j < d + 1"
    using assms(2) by simp
  have kdiv: "k div (d + 1) = i"
    unfolding k_def by (subst div_mult_self3) (use j in simp_all)
  have kmod: "k mod (d + 1) = j"
    unfolding k_def by (subst mod_mult_self3) (use j in simp_all)
  have "List.product [0..<m] [0..<d + 1] ! k
      = ([0..<m] ! (k div length [0..<d + 1]), [0..<d + 1] ! (k mod length [0..<d + 1]))"
    using bound by (intro product_nth) simp
  also have "\<dots> = (i, j)"
    using assms kdiv kmod by (simp del: upt_Suc)
  finally have "List.product [0..<m] [0..<d + 1] ! k = (i, j)" .
  moreover have "k < length (List.product [0..<m] [0..<d + 1])"
    using bound by simp
  ultimately have "lagged_columns ep m d ! k = lag_column (rows ep ! i) j (ncols ep)"
    unfolding lagged_columns_def by (simp only: nth_map prod.case)
  then show ?thesis
    by (simp only: k_def)
qed

lemma nth_array_of_columns:
  "t < T \<Longrightarrow> k < length cs \<Longrightarrow> rows (array_of_columns T cs) ! t ! k = cs ! k ! t"
  by (simp add: array_of_columns_def)

lemma column_of_array_of_columns:
  assumes "k < length cs" and "length (cs ! k) = T"
  shows "map (\<lambda>r. r ! k) (rows (array_of_columns T cs)) = cs ! k"
  using assms by (intro nth_equalityI) (simp_all add: array_of_columns_def)

lemma wf_array_of_columns: "wf_array (array_of_columns T cs)"
  by (simp add: wf_array_def array_of_columns_def list_all_iff)

lemma lagged_entry:
  assumes "t < ncols ep" and "i < m" and "j \<le> d"
  shows "rows (array_of_columns (ncols ep) (lagged_columns ep m d)) ! t ! (i * (d + 1) + j)
     = (if t < j then 0 else rows ep ! i ! (t - j))"
proof -
  have "i * (d + 1) + j < length (lagged_columns ep m d)"
    unfolding length_lagged_columns using assms(2,3) by (rule pair_index_bound)
  with assms(1)
  have "rows (array_of_columns (ncols ep) (lagged_columns ep m d)) ! t ! (i * (d + 1) + j)
      = lagged_columns ep m d ! (i * (d + 1) + j) ! t"
    by (rule nth_array_of_columns)
  also have "\<dots> = lag_column (rows ep ! i) j (ncols ep) ! t"
    by (simp only: nth_lagged_columns [OF assms(2,3)])
  also have "\<dots> = (if t < j then 0 else rows ep ! i ! (t - j))"
    using assms(1) by (rule nth_lag_column)
  finally show ?thesis .
qed

lemma lag_column_zero: "lag_column x 0 (length x) = x"
  by (simp add: lag_column_def map_nth)

lemma lagged_columns_no_lag:
  assumes "wf_array ep" and "m \<le> nrows ep"
  shows "lagged_columns ep m 0 = take m (rows ep)"
proof (rule nth_equalityI)
  show "length (lagged_columns ep m 0) = length (take m (rows ep))"
    using assms by (simp add: wf_array_def length_lagged_columns)
next
  fix i
  assume "i < length (lagged_columns ep m 0)"
  then have i: "i < m"
    by (simp add: length_lagged_columns)
  then have "length (rows ep ! i) = ncols ep"
    using assms by (simp add: wf_array_def list_all_length)
  then have "lag_column (rows ep ! i) 0 (ncols ep) = rows ep ! i"
    using lag_column_zero [of "rows ep ! i"] by simp
  then show "lagged_columns ep m 0 ! i = take m (rows ep) ! i"
    using nth_lagged_columns [of i m 0 0 ep] i by simp
qed

lemma take_rows_short:
  assumes "wf_array ep" and "nrows ep \<le> m"
  shows "take_rows m ep = padded_data ep (nrows ep) 0"
proof -
  have "py_slice (rows ep) 0 (int m) = rows ep"
    using py_slice_nat [of "rows ep" 0 m] assms by (simp add: wf_array_def)
  then show ?thesis
    using assms(1) by (simp add: take_rows_def padded_data_def wf_array_def)
qed

lemma missing_channel_fails:
  "0 < n \<Longrightarrow> for_each (append_lag (padded_data ep n 0) L 0 n) [0..<0 + 1] M = Inl IndexError"
  by (simp add: append_lag_def getrow_def padded_data_def)

lemma for_each_fails:
  assumes "for_each body xs s = Inr s'" and "body s' x = Inl err"
  shows "for_each body (xs @ x # ys) s = Inl err"
  using assms by (simp add: for_each_append)

section \<open>The design matrix builder\<close>

text \<open>
  Claim C1. For a well-formed stimulus slice \<open>ep\<close> with at least \<open>m \<ge> 1\<close> channels and
  \<open>T = ncols ep\<close> samples, and any lag depth \<open>d\<close>, \<^verbatim>\<open>prepare_stimuli\<close> returns a matrix with
  one column per pair (channel \<open>i < m\<close>, lag \<open>j \<le> d\<close>), the column of \<open>(i, j)\<close> standing at
  index \<open>i * (d + 1) + j\<close>: \<open>(0, 0)\<close> first, then the pairs in lexicographic order, \<open>i\<close> outer
  and \<open>j\<close> inner. In every row \<open>t\<close> the entry of column \<open>(i, j)\<close> is channel \<open>i\<close> at time
  \<open>t - j\<close>, and zero when \<open>t < j\<close>; column 0 is the unlagged trace of channel 0.
\<close>

theorem prepare_stimuli_entries:
  assumes "wf_array ep" and "1 \<le> m" and "m \<le> nrows ep"
  shows "\<exists>M. prepare_stimuli ep m d = Inr M
     \<and> ncols M = m * (d + 1)
     \<and> (\<forall>t < ncols ep. length (rows M ! t) = m * (d + 1)
           \<and> rows M ! t ! 0 = rows ep ! 0 ! t
           \<and> (\<forall>i < m. \<forall>j \<le> d.
                 rows M ! t ! (i * (d + 1) + j) = (if t < j then 0 else rows ep ! i ! (t - j))))"
proof -
  let ?M = "array_of_columns (ncols ep) (lagged_columns ep m d)"
  have res: "prepare_stimuli ep m d = Inr ?M"
    using assms by (rule prepare_stimuli_columns)
  have entry: "rows ?M ! t ! (i * (d + 1) + j) = (if t < j then 0 else rows ep ! i ! (t - j))"
    if "t < ncols ep" and "i < m" and "j \<le> d" for t i j
    using that by (rule lagged_entry)
  have first: "rows ?M ! t ! 0 = rows ep ! 0 ! t" if "t < ncols ep" for t
    using entry [of t 0 0] that assms(2) by simp
  have len: "length (rows ?M ! t) = m * (d + 1)" if "t < ncols ep" for t
    using that by (simp add: array_of_columns_def length_lagged_columns)
  have "ncols ?M = m * (d + 1)"
    by (simp add: array_of_columns_def length_lagged_columns)
  with res entry first len show ?thesis
    by blast
qed

theorem prepare_stimuli_entries_witness:
  "\<exists>M. prepare_stimuli \<lparr>nrows = 1, ncols = 2, rows = [[7, 9 :: int]]\<rparr> 1 1 = Inr M
     \<and> ncols M = 2 \<and> rows M ! 1 ! 0 = 9 \<and> rows M ! 1 ! 1 = 7 \<and> rows M ! 0 ! 1 = 0"
proof -
  let ?ep = "\<lparr>nrows = 1, ncols = 2, rows = [[7, 9 :: int]]\<rparr>"
  have wf: "wf_array ?ep" and m: "(1::nat) \<le> 1" "1 \<le> nrows ?ep"
    by (simp_all add: wf_array_def)
  obtain M where res: "prepare_stimuli ?ep 1 1 = Inr M"
    and cols: "ncols M = 1 * (1 + 1)"
    and entries: "\<forall>t < ncols ?ep. length (rows M ! t) = 1 * (1 + 1)
           \<and> rows M ! t ! 0 = rows ?ep ! 0 ! t
           \<and> (\<forall>i < 1. \<forall>j \<le> 1.
                 rows M ! t ! (i * (1 + 1) + j) = (if t < j then 0 else rows ?ep ! i ! (t - j)))"
    using prepare_stimuli_entries [OF wf m, of 1] by blast
  have t0: "0 < ncols ?ep" and t1: "1 < ncols ?ep"
    by simp_all
  note row0 = entries [THEN spec, THEN mp, OF t0]
  note row1 = entries [THEN spec, THEN mp, OF t1]
  note lag0 = row0 [THEN conjunct2, THEN conjunct2, THEN spec, THEN mp, THEN spec, THEN mp]
  note lag1 = row1 [THEN conjunct2, THEN conjunct2, THEN spec, THEN mp, THEN spec, THEN mp]
  have "rows M ! 1 ! 0 = rows ?ep ! 0 ! 1"
    using row1 by blast
  then have a: "rows M ! 1 ! 0 = 9"
    by simp
  have "rows M ! 1 ! (0 * (1 + 1) + 1) = (if (1::nat) < 1 then 0 else rows ?ep ! 0 ! (1 - 1))"
    by (rule lag1) simp_all
  then have b: "rows M ! 1 ! 1 = 7"
    by simp
  have "rows M ! 0 ! (0 * (1 + 1) + 1) = (if (0::nat) < 1 then 0 else rows ?ep ! 0 ! (0 - 1))"
    by (rule lag0) simp_all
  then have c: "rows M ! 0 ! 1 = 0"
    by simp
  from res cols a b c show ?thesis
    by simp
qed

text \<open>
  Claim C4. Under the same conditions the result has exactly \<open>T\<close> rows, the sample count of
  the slice before padding, and exactly \<open>m * (d + 1)\<close> columns, every row having that many
  entries; for \<open>d = 0\<close> it is the transpose of the first \<open>m\<close> channels.
\<close>

theorem prepare_stimuli_shape:
  assumes "wf_array ep" and "1 \<le> m" and "m \<le> nrows ep"
  shows "(\<exists>M. prepare_stimuli ep m d = Inr M \<and> wf_array M
            \<and> nrows M = ncols ep \<and> ncols M = m * (d + 1))
     \<and> prepare_stimuli ep m 0 = Inr (transpose_array (take_rows m ep))"
proof -
  let ?M = "array_of_columns (ncols ep) (lagged_columns ep m d)"
  have "transpose_array (take_rows m ep) = array_of_columns (ncols ep) (lagged_columns ep m 0)"
    using assms
    by (simp add: take_rows_all transpose_array_def array_of_columns_def lagged_columns_no_lag
        wf_array_def)
  then have no_lag: "prepare_stimuli ep m 0 = Inr (transpose_array (take_rows m ep))"
    using prepare_stimuli_columns [OF assms, of 0] by simp
  have res: "prepare_stimuli ep m d = Inr ?M"
    using assms by (rule prepare_stimuli_columns)
  have wf: "wf_array ?M"
    by (rule wf_array_of_columns)
  have shape: "nrows ?M = ncols ep" "ncols ?M = m * (d + 1)"
    by (simp_all add: array_of_columns_def length_lagged_columns)
  from res wf shape no_lag show ?thesis
    by blast
qed

theorem prepare_stimuli_shape_witness:
  "(\<exists>M. prepare_stimuli \<lparr>nrows = 2, ncols = 3, rows = [[1, 2, 3], [4, 5, 6 :: int]]\<rparr> 2 1 = Inr M
       \<and> wf_array M \<and> nrows M = 3 \<and> ncols M = 4)
   \<and> prepare_stimuli \<lparr>nrows = 2, ncols = 3, rows = [[1, 2, 3], [4, 5, 6 :: int]]\<rparr> 2 0
       = Inr \<lparr>nrows = 3, ncols = 2, rows = [[1, 4], [2, 5], [3, 6]]\<rparr>"
proof -
  let ?ep = "\<lparr>nrows = 2, ncols = 3, rows = [[1, 2, 3], [4, 5, 6 :: int]]\<rparr>"
  have wf: "wf_array ?ep" and m: "(1::nat) \<le> 2" "2 \<le> nrows ?ep"
    by (simp_all add: wf_array_def)
  have "transpose_array (take_rows 2 ?ep) = \<lparr>nrows = 3, ncols = 2, rows = [[1, 4], [2, 5], [3, 6]]\<rparr>"
    by (simp add: transpose_array_def take_rows_def py_slice_def norm_index_def upt_conv_Cons)
  then show ?thesis
    using prepare_stimuli_shape [OF wf m, of 1] by simp
qed

text \<open>
  Claim C5 says that in the column of \<open>(i, j)\<close> the current row holds the value from \<open>d + j\<close>
  samples earlier. For one channel \<open>[1, 2, 3]\<close> and \<open>d = 1\<close>, the column of \<open>(0, 1)\<close> is
  \<open>[0, 1, 2]\<close>: its row 2 holds 2, the value one sample earlier, and not 1, the value
  \<open>d + j = 2\<close> samples earlier.
\<close>

theorem prepare_stimuli_delay_counterexample:
  "prepare_stimuli \<lparr>nrows = 1, ncols = 3, rows = [[1, 2, 3 :: int]]\<rparr> 1 1
     = Inr \<lparr>nrows = 3, ncols = 2, rows = [[1, 0], [2, 1], [3, 2]]\<rparr>
   \<and> rows \<lparr>nrows = 3, ncols = 2, rows = [[1, 0], [2, 1], [3, 2 :: int]]\<rparr> ! 2 ! (0 * (1 + 1) + 1)
     \<noteq> rows \<lparr>nrows = 1, ncols = 3, rows = [[1, 2, 3 :: int]]\<rparr> ! 0 ! (2 - (1 + 1))"
proof -
  have "prepare_stimuli \<lparr>nrows = 1, ncols = 3, rows = [[1, 2, 3 :: int]]\<rparr> 1 1
     = Inr \<lparr>nrows = 3, ncols = 2, rows = [[1, 0], [2, 1], [3, 2]]\<rparr>"
    by code_simp
  then show ?thesis
    by simp
qed

text \<open>
  Claim C5, amended. For every channel \<open>i < m\<close> and lag \<open>j \<le> d\<close>, the column of \<open>(i, j)\<close> in
  the result is channel \<open>i\<close>'s padded series sliced from position \<open>d - j\<close> to \<open>L - j\<close>, where
  \<open>L\<close> is the padded length; its row \<open>t\<close> holds the value from \<open>j\<close> samples earlier (zero in
  the first \<open>j\<close> rows), so a larger \<open>j\<close> is older history.
\<close>

theorem prepare_stimuli_lag_column:
  assumes "wf_array ep" and "1 \<le> m" and "m \<le> nrows ep" and "i < m" and "j \<le> d"
  shows "\<exists>M. prepare_stimuli ep m d = Inr M
     \<and> map (\<lambda>r. r ! (i * (d + 1) + j)) (rows M)
         = py_slice (rows (padded_data ep m d) ! i) (int d - int j)
             (int (ncols (padded_data ep m d)) - int j)
     \<and> (\<forall>t < ncols ep.
           rows M ! t ! (i * (d + 1) + j) = (if t < j then 0 else rows ep ! i ! (t - j)))"
proof -
  let ?M = "array_of_columns (ncols ep) (lagged_columns ep m d)"
  have res: "prepare_stimuli ep m d = Inr ?M"
    using assms(1-3) by (rule prepare_stimuli_columns)
  have bound: "i * (d + 1) + j < length (lagged_columns ep m d)"
    unfolding length_lagged_columns using assms(4,5) by (rule pair_index_bound)
  have len: "length (rows ep ! i) = ncols ep" and i: "i < length (rows ep)"
    using assms(1,3,4) by (simp_all add: wf_array_def list_all_length)
  have nth: "lagged_columns ep m d ! (i * (d + 1) + j) = lag_column (rows ep ! i) j (ncols ep)"
    using assms(4,5) by (rule nth_lagged_columns)
  have "length (lagged_columns ep m d ! (i * (d + 1) + j)) = ncols ep"
    by (simp only: nth length_lag_column)
  with bound have "map (\<lambda>r. r ! (i * (d + 1) + j)) (rows ?M)
      = lagged_columns ep m d ! (i * (d + 1) + j)"
    by (rule column_of_array_of_columns)
  also have "\<dots> = lag_column (rows ep ! i) j (ncols ep)"
    by (rule nth)
  also have "\<dots> = py_slice (rows (padded_data ep m d) ! i) (int d - int j)
             (int (ncols (padded_data ep m d)) - int j)"
    using py_slice_lag [OF assms(5) len] assms(4) i by (simp add: padded_data_def)
  finally have col: "map (\<lambda>r. r ! (i * (d + 1) + j)) (rows ?M)
      = py_slice (rows (padded_data ep m d) ! i) (int d - int j)
             (int (ncols (padded_data ep m d)) - int j)" .
  have "rows ?M ! t ! (i * (d + 1) + j) = (if t < j then 0 else rows ep ! i ! (t - j))"
    if "t < ncols ep" for t
    using that assms(4,5) by (rule lagged_entry)
  with res col show ?thesis
    by blast
qed

theorem prepare_stimuli_lag_column_witness:
  "\<exists>M. prepare_stimuli \<lparr>nrows = 1, ncols = 3, rows = [[1, 2, 3 :: int]]\<rparr> 1 2 = Inr M
     \<and> map (\<lambda>r. r ! 2) (rows M) = [0, 0, 1]"
proof -
  let ?ep = "\<lparr>nrows = 1, ncols = 3, rows = [[1, 2, 3 :: int]]\<rparr>"
  have wf: "wf_array ?ep" and m: "(1::nat) \<le> 1" "1 \<le> nrows ?ep"
    and ij: "(0::nat) < 1" "(2::nat) \<le> 2"
    by (simp_all add: wf_array_def)
  have slice: "py_slice (rows (padded_data ?ep 1 2) ! 0) (int 2 - int 2)
             (int (ncols (padded_data ?ep 1 2)) - int 2) = [0, 0, 1]"
    by (simp add: padded_data_def py_slice_def norm_index_def numeral_2_eq_2 numeral_3_eq_3)
  have idx: "0 * (2 + 1) + 2 = (2::nat)"
    by simp
  obtain M where res: "prepare_stimuli ?ep 1 2 = Inr M"
    and col: "map (\<lambda>r. r ! (0 * (2 + 1) + 2)) (rows M)
         = py_slice (rows (padded_data ?ep 1 2) ! 0) (int 2 - int 2)
             (int (ncols (padded_data ?ep 1 2)) - int 2)"
    using prepare_stimuli_lag_column [OF wf m ij] by blast
  have "map (\<lambda>r. r ! 2) (rows M) = [0, 0, 1]"
    using col unfolding idx slice .
  with res show ?thesis
    by simp
qed

text \<open>
  Claim C7 says that a slice with fewer than \<open>m\<close> channels is rejected by an explicit
  precondition check and not by an index out of bounds. With one channel, \<open>m = 2\<close> and
  \<open>d = 0\<close> the call ends in the \<^verbatim>\<open>IndexError\<close> of \<^verbatim>\<open>stim_data[1]\<close>.
\<close>

theorem prepare_stimuli_missing_channel_counterexample:
  "prepare_stimuli \<lparr>nrows = 1, ncols = 2, rows = [[1, 2 :: int]]\<rparr> 2 0 = Inl IndexError"
  by code_simp

text \<open>
  Claim C7, amended. \<^verbatim>\<open>prepare_stimuli\<close> has no check of the channel count. On a slice
  with fewer than \<open>m\<close> channels it never returns a matrix: for \<open>d > 0\<close> numpy's \<^verbatim>\<open>hstack\<close>
  raises \<^verbatim>\<open>ValueError\<close>, since the zero buffer has \<open>m\<close> rows and the data fewer, and for
  \<open>d = 0\<close> indexing the first missing channel raises \<^verbatim>\<open>IndexError\<close>.
\<close>

theorem prepare_stimuli_too_few_channels:
  assumes "wf_array ep" and "nrows ep < m"
  shows "prepare_stimuli ep m d
     = Inl (if d > 0 then ValueError ''array dimensions must match'' else IndexError)"
proof (cases "d > 0")
  case True
  have "nrows (take_rows m ep) = nrows ep"
    using assms by (simp add: take_rows_short padded_data_def)
  then have "hstack (zeros m d) (take_rows m ep) = Inl (ValueError ''array dimensions must match'')"
    using assms(2) by (simp add: hstack_def zeros_def)
  then show ?thesis
    using True by (simp add: prepare_stimuli_def)
next
  case False
  then have d: "d = 0"
    by simp
  define n where "n = nrows ep"
  have data: "take_rows m ep = padded_data ep n 0"
    unfolding n_def using assms by (intro take_rows_short) simp_all
  have ncols_padded: "ncols (padded_data ep n 0) = 0 + ncols ep"
    by (simp add: padded_data_def)
  show ?thesis
  proof (cases "n = 0")
    case True
    then have "getrow (padded_data ep n 0) 0 = Inl IndexError"
      by (simp add: getrow_def padded_data_def)
    then show ?thesis
      by (simp add: prepare_stimuli_def d data)
  next
    case False
    then have n: "0 < n"
      by simp
    have len: "n \<le> length (rows ep)" and rows: "\<forall>i < n. length (rows ep ! i) = ncols ep"
      using assms(1) by (simp_all add: n_def wf_array_def list_all_length)
    have row0: "getrow (padded_data ep n 0) 0 = Inr (replicate 0 0 @ rows ep ! 0)"
      using n len by (simp add: getrow_def padded_data_def)
    have first: "py_slice (replicate 0 0 @ rows ep ! 0) (int 0) (int (0 + ncols ep))
        = lag_column (rows ep ! 0) 0 (ncols ep)"
      using py_slice_lag [of 0 0 "rows ep ! 0" "ncols ep"] rows n by simp
    have loop: "for_each (\<lambda>stim_matrix i.
               for_each (append_lag (padded_data ep n 0) (0 + ncols ep) 0 i) [0..<0 + 1] stim_matrix)
             [0..<n] (array_of_columns (ncols ep) [lag_column (rows ep ! 0) 0 (ncols ep)])
       = Inr (array_of_columns (ncols ep)
               ([lag_column (rows ep ! 0) 0 (ncols ep)] @ concat (map (channel_columns ep 0) [0..<n])))"
      using rows len by (intro outer_loop_padded) simp_all
    have split: "[0..<m] = [0..<n] @ n # [Suc n..<m]"
      using assms(2) unfolding n_def
      by (metis less_imp_le_nat upt_add_eq_append upt_conv_Cons le_add_diff_inverse zero_le)
    have "for_each (\<lambda>stim_matrix i.
               for_each (append_lag (padded_data ep n 0) (0 + ncols ep) 0 i) [0..<0 + 1] stim_matrix)
             ([0..<n] @ n # [Suc n..<m])
             (array_of_columns (ncols ep) [lag_column (rows ep ! 0) 0 (ncols ep)])
       = Inl IndexError"
      using loop by (rule for_each_fails) (rule missing_channel_fails [OF n])
    then show ?thesis
      unfolding prepare_stimuli_def d data
      by (simp only: sum.case Let_def row0 ncols_padded first transpose_row length_lag_column split
          less_irrefl if_False)
  qed
qed

theorem prepare_stimuli_too_few_channels_witness:
  "prepare_stimuli \<lparr>nrows = 2, ncols = 2, rows = [[1, 2], [3, 4 :: int]]\<rparr> 3 0 = Inl IndexError
   \<and> prepare_stimuli \<lparr>nrows = 2, ncols = 2, rows = [[1, 2], [3, 4 :: int]]\<rparr> 3 1
       = Inl (ValueError ''array dimensions must match'')"
proof -
  let ?ep = "\<lparr>nrows = 2, ncols = 2, rows = [[1, 2], [3, 4 :: int]]\<rparr>"
  have wf: "wf_array ?ep" and m: "nrows ?ep < 3"
    by (simp_all add: wf_array_def)
  show ?thesis
    using prepare_stimuli_too_few_channels [OF wf m, of 0]
      prepare_stimuli_too_few_channels [OF wf m, of 1]
    by simp
qed

section \<open>Facts about the ledger\<close>

text \<open>
  One call of \<^verbatim>\<open>save_results\<close> on a file whose first line ends in a digit \<open>c\<close>: the line
  keeps what stands before \<open>c\<close> and gets \<open>c + 1\<close> in decimal, the rest of the file is written
  back as it was read, and the new block is numbered \<open>c + 1\<close>.
\<close>

lemma un_no_cr: "carriage_return \<notin> set xs \<Longrightarrow> universal_newlines xs = xs"
  by (induction xs rule: universal_newlines.induct) auto

lemma un_prefix: "carriage_return \<notin> set P \<Longrightarrow> universal_newlines (P @ ys) = P @ universal_newlines ys"
proof (induction P)
  case Nil
  then show ?case by simp
next
  case (Cons c P)
  then show ?case
    by (cases "P @ ys") auto
qed

lemma cr_notin_un: "carriage_return \<notin> set (universal_newlines xs)"
  by (induction xs rule: universal_newlines.induct) auto

lemma un_idem: "universal_newlines (universal_newlines xs) = universal_newlines xs"
  by (rule un_no_cr) (rule cr_notin_un)

lemma un_append:
  "ys = [] \<or> hd ys \<noteq> newline \<Longrightarrow>
   universal_newlines (xs @ ys) = universal_newlines xs @ universal_newlines ys"
proof (induction xs rule: universal_newlines.induct)
  case 1
  then show ?case by simp
next
  case (2 c)
  then show ?case
    by (cases ys) auto
next
  case (3 c d cs)
  then show ?case
    by auto
qed

lemma split_newline_nonempty: "split_newline content \<noteq> []"
  by (induction content) (auto split: list.splits)

lemma hd_split_newline:
  "newline \<notin> set P \<Longrightarrow> hd (split_newline (P @ newline # rest)) = P"
  by (induction P) (auto simp add: split_newline_nonempty split: list.splits)

lemma readlines_first:
  "newline \<notin> set P \<Longrightarrow> readlines (P @ newline # rest) = (P @ [newline]) # readlines rest"
  by (induction P) (auto split: list.splits)

lemma concat_readlines: "concat (readlines content) = content"
  by (induction content) (auto split: list.splits)

lemma py_slice_drop_two: "py_slice (P @ [c, e]) 0 (- 2) = P"
  by (simp add: py_slice_def norm_index_def)

lemma int_of_char_plain:
  "int_of_char c = Inr v \<Longrightarrow> c \<noteq> newline \<and> c \<noteq> carriage_return"
  by (auto simp add: int_of_char_def split: if_splits)

lemma save_results_step:
  assumes "newline \<notin> set P" and "carriage_return \<notin> set P" and "int_of_char c = Inr v"
  shows "save_results str r (Some (P @ c # newline # rest))
     = Inr (Some (P @ str_int (v + 1) @ newline # universal_newlines rest
                  @ (if v + 1 = 1 then ''N: '' @ str_int (v + 1) @ [newline] else [])
                  @ result_text str r (v + 1)))"
proof -
  have c: "c \<noteq> newline" "c \<noteq> carriage_return"
    using assms(3) by (simp_all add: int_of_char_plain)
  have line: "newline \<notin> set (P @ [c])"
    using assms(1) c by simp
  have "carriage_return \<notin> set (P @ [c, newline])"
    using assms(2) c by simp
  then have "universal_newlines ((P @ [c, newline]) @ rest) = (P @ [c, newline]) @ universal_newlines rest"
    by (rule un_prefix)
  then have read: "read_text (Some (P @ c # newline # rest)) = P @ c # newline # universal_newlines rest"
    by (simp add: read_text_def)
  have first: "hd (split_newline (P @ c # newline # universal_newlines rest)) = P @ [c]"
    using hd_split_newline [OF line, of "universal_newlines rest"] by simp
  have lines: "readlines (P @ c # newline # universal_newlines rest)
      = (P @ [c, newline]) # readlines (universal_newlines rest)"
    using readlines_first [OF line, of "universal_newlines rest"] by simp
  show ?thesis
    by (simp add: save_results_def open_file_def Let_def read first lines assms(3)
        py_slice_drop_two concat_readlines)
qed

lemma save_results_fresh:
  "ledger = None \<or> ledger = Some [] \<Longrightarrow>
   save_results str r ledger = Inr (Some (''N: 1'' @ newline # result_text str r 1))"
  by (auto simp add: save_results_def open_file_def read_text_def Let_def str_int_def
      str_nat.simps digit_char_def)

lemma small_nat_cases:
  "j < 10 \<Longrightarrow> j = 0 \<or> j = 1 \<or> j = 2 \<or> j = 3 \<or> j = 4 \<or> j = 5 \<or> j = 6 \<or> j = 7 \<or> j = 8 \<or> j = (9::nat)"
  by arith

lemma int_of_digit_char: "j < 10 \<Longrightarrow> int_of_char (digit_char j) = Inr (int j)"
  by (drule small_nat_cases) (auto simp add: int_of_char_def digit_char_def)


lemma is_digit_digit_char: "j < 10 \<Longrightarrow> is_digit (digit_char j)"
  by (drule small_nat_cases) (auto simp add: is_digit_def digit_char_def)


lemma is_digit_plain: "is_digit c \<Longrightarrow> c \<noteq> newline \<and> c \<noteq> carriage_return"
  by (auto simp add: is_digit_def)

lemma digits_plain:
  "list_all is_digit ds \<Longrightarrow> newline \<notin> set ds \<and> carriage_return \<notin> set ds"
  by (auto simp add: list_all_iff dest: is_digit_plain)

lemma str_nat_digit: "j < 10 \<Longrightarrow> str_nat j = [digit_char j]"
  by (simp add: str_nat.simps)

lemma str_nat_ten: "str_nat 10 = ''10''"
  by (simp add: str_nat.simps [of 10] str_nat.simps [of "Suc 0"] digit_char_def)

lemma str_int_nat: "str_int (int j) = str_nat j"
  by (simp add: str_int_def)

lemma str_int_succ: "str_int (int j + 1) = str_nat (Suc j)"
  using str_int_nat [of "Suc j"] by (simp add: add.commute)

lemma save_all_snoc:
  "save_all str (rs @ [r]) ledger =
     (case save_all str rs ledger of Inl err \<Rightarrow> Inl err | Inr ledger' \<Rightarrow> save_results str r ledger')"
  by (induction rs arbitrary: ledger) (auto split: sum.splits)

lemma save_all_counting:
  assumes "1 \<le> j" and "j + length rs \<le> 10"
  shows "save_all str rs (Some (''N: '' @ str_nat j @ newline # rest))
     = Inr (Some (''N: '' @ str_nat (j + length rs) @ newline
                  # ledger_body str rs (int j + 1) rest))"
  using assms
proof (induction rs arbitrary: j rest)
  case Nil
  then show ?case by simp
next
  case (Cons r rs)
  have j: "j < 10"
    using Cons.prems(2) by simp
  have "save_results str r (Some (''N: '' @ digit_char j # newline # rest))
     = Inr (Some (''N: '' @ str_int (int j + 1) @ newline # universal_newlines rest
                  @ (if int j + 1 = 1 then ''N: '' @ str_int (int j + 1) @ [newline] else [])
                  @ result_text str r (int j + 1)))"
    by (rule save_results_step) (simp_all add: int_of_digit_char [OF j])
  then have step: "save_results str r (Some (''N: '' @ str_nat j @ newline # rest))
     = Inr (Some (''N: '' @ str_nat (Suc j) @ newline
                  # (universal_newlines rest @ result_text str r (int j + 1))))"
    using Cons.prems(1) by (simp add: str_nat_digit [OF j] str_int_succ)
  have "save_all str rs (Some (''N: '' @ str_nat (Suc j) @ newline
                  # (universal_newlines rest @ result_text str r (int j + 1))))
     = Inr (Some (''N: '' @ str_nat (Suc j + length rs) @ newline
                  # ledger_body str rs (int (Suc j) + 1)
                      (universal_newlines rest @ result_text str r (int j + 1))))"
    using Cons.prems by (intro Cons.IH) simp_all
  then show ?case
    using step by (simp add: add.commute add.left_commute)
qed

lemma result_text_starts: "\<exists>body. result_text str r n = CHR ''T'' # body"
  by (simp add: result_text_def)

lemma un_result_text:
  "universal_newlines (xs @ result_text str r n @ ys)
     = universal_newlines xs @ universal_newlines (result_text str r n @ ys)"
proof -
  obtain body where "result_text str r n = CHR ''T'' # body"
    using result_text_starts by blast
  then show ?thesis
    by (intro un_append) simp
qed

lemma trial_blocks_snoc:
  "trial_blocks str (rs @ [r]) n = trial_blocks str rs n @ result_text str r (n + int (length rs))"
  by (induction rs arbitrary: n) (simp_all add: add.assoc add.commute add.left_commute)

lemma ledger_body_snoc:
  "ledger_body str (rs @ [r]) n rest
     = universal_newlines (rest @ trial_blocks str rs n) @ result_text str r (n + int (length rs))"
proof (induction rs arbitrary: n rest)
  case Nil
  then show ?case by simp
next
  case (Cons r0 rs)
  have "universal_newlines ((universal_newlines rest @ result_text str r0 n) @ trial_blocks str rs (n + 1))
      = universal_newlines (rest @ result_text str r0 n @ trial_blocks str rs (n + 1))"
    using un_result_text [of "universal_newlines rest" str r0 n "trial_blocks str rs (n + 1)"]
      un_result_text [of rest str r0 n "trial_blocks str rs (n + 1)"]
    by (simp add: un_idem)
  then show ?case
    by (simp add: Cons.IH add.assoc add.commute add.left_commute)
qed

lemma save_all_up_to_ten:
  assumes "ledger = None \<or> ledger = Some []" and "length rs \<le> 9"
  shows "save_all str (rs @ [r]) ledger
     = Inr (Some (''N: '' @ str_nat (Suc (length rs)) @ newline
                  # universal_newlines (trial_blocks str rs 1)
                  @ result_text str r (int (length rs) + 1)))"
proof (cases rs)
  case Nil
  then show ?thesis
    using save_results_fresh [OF assms(1), of str r]
    by (simp add: str_nat.simps digit_char_def)
next
  case (Cons r0 rs')
  have "save_all str (rs' @ [r]) (Some (''N: '' @ str_nat 1 @ newline # result_text str r0 1))
     = Inr (Some (''N: '' @ str_nat (1 + length (rs' @ [r])) @ newline
                  # ledger_body str (rs' @ [r]) (int 1 + 1) (result_text str r0 1)))"
    using assms(2) Cons by (intro save_all_counting) simp_all
  then show ?thesis
    using save_results_fresh [OF assms(1), of str r0] Cons
    by (simp add: str_nat_digit digit_char_def ledger_body_snoc add.commute)
qed

lemma str_nat_digits: "list_all is_digit (str_nat n)"
proof (induction n rule: str_nat.induct)
  case (1 n)
  show ?case
  proof (cases "n < 10")
    case True
    then show ?thesis
      by (simp add: str_nat_digit is_digit_digit_char)
  next
    case False
    then have "list_all is_digit (str_nat (n div 10))"
      by (rule "1.IH")
    moreover have "is_digit (digit_char (n mod 10))"
      by (rule is_digit_digit_char) simp
    ultimately show ?thesis
      using False by (subst str_nat.simps) simp
  qed
qed

lemma str_int_plain: "newline \<notin> set (str_int i) \<and> carriage_return \<notin> set (str_int i)"
  using digits_plain [OF str_nat_digits [of "nat i"]] digits_plain [OF str_nat_digits [of "nat (- i)"]]
  by (simp add: str_int_def)

lemma takeWhile_line:
  "newline \<notin> set P \<Longrightarrow> takeWhile (\<lambda>c. c \<noteq> newline) (P @ newline # rest) = P"
  by (induction P) auto

lemma header_plain:
  "newline \<notin> set (''Trial: n='' @ str_int n @ '', m='' @ str_int m @ '', d='' @ str_int d)
   \<and> carriage_return \<notin> set (''Trial: n='' @ str_int n @ '', m='' @ str_int m @ '', d='' @ str_int d)"
  using str_int_plain [of n] str_int_plain [of m] str_int_plain [of d] by simp

lemma result_text_header:
  "\<exists>body. result_text str r n
     = (''Trial: n='' @ str_int n @ '', m='' @ str_int (rd_m r) @ '', d='' @ str_int (rd_d r))
       @ newline # body"
  by (simp add: result_text_def)

lemma first_line_result_text:
  "first_line (result_text str r n)
     = ''Trial: n='' @ str_int n @ '', m='' @ str_int (rd_m r) @ '', d='' @ str_int (rd_d r)"
proof -
  let ?H = "''Trial: n='' @ str_int n @ '', m='' @ str_int (rd_m r) @ '', d='' @ str_int (rd_d r)"
  obtain body where block: "result_text str r n = ?H @ newline # body"
    using result_text_header by blast
  have "newline \<notin> set ?H"
    using header_plain [of n "rd_m r" "rd_d r"] by blast
  then have "takeWhile (\<lambda>c. c \<noteq> newline) (?H @ newline # body) = ?H"
    by (rule takeWhile_line)
  then show ?thesis
    unfolding first_line_def block .
qed

lemma first_line_stored_block:
  "first_line (universal_newlines (result_text str r n))
     = ''Trial: n='' @ str_int n @ '', m='' @ str_int (rd_m r) @ '', d='' @ str_int (rd_d r)"
proof -
  let ?H = "''Trial: n='' @ str_int n @ '', m='' @ str_int (rd_m r) @ '', d='' @ str_int (rd_d r)"
  obtain body where block: "result_text str r n = ?H @ newline # body"
    using result_text_header by blast
  have plain: "newline \<notin> set ?H" "carriage_return \<notin> set ?H"
    using header_plain [of n "rd_m r" "rd_d r"] by blast+
  have "carriage_return \<notin> set (?H @ [newline])"
    using plain(2) by simp
  then have "universal_newlines ((?H @ [newline]) @ body) = (?H @ [newline]) @ universal_newlines body"
    by (rule un_prefix)
  then have stored: "universal_newlines (?H @ newline # body) = ?H @ newline # universal_newlines body"
    by simp
  have "takeWhile (\<lambda>c. c \<noteq> newline) (?H @ newline # universal_newlines body) = ?H"
    using plain(1) by (rule takeWhile_line)
  then show ?thesis
    unfolding first_line_def block stored .
qed










section \<open>The trial ledger\<close>

text \<open>
  Claim C8. Three calls of \<^verbatim>\<open>save_results\<close>, one after the other, on a path that does not
  exist (or on an empty file) leave a file whose first line reads \<^verbatim>\<open>N: 3\<close>, followed by
  exactly the three blocks of the three records in the order of the calls, the first two
  as the later calls wrote them back; the header lines of the blocks read \<^verbatim>\<open>Trial: n=1\<close>,
  \<^verbatim>\<open>Trial: n=2\<close> and \<^verbatim>\<open>Trial: n=3\<close>, each with the record's own \<^verbatim>\<open>m\<close> and \<^verbatim>\<open>d\<close>. When the first two
  blocks hold no carriage return, the file is the counter line and the three blocks as
  \<^verbatim>\<open>result_text\<close> formats them.
\<close>

theorem three_trials_ledger:
  "save_all str [r1, r2, r3] None
     = Inr (Some (''N: 3'' @ newline # universal_newlines (result_text str r1 1)
                    @ universal_newlines (result_text str r2 2) @ result_text str r3 3))
   \<and> save_all str [r1, r2, r3] (Some [])
     = Inr (Some (''N: 3'' @ newline # universal_newlines (result_text str r1 1)
                    @ universal_newlines (result_text str r2 2) @ result_text str r3 3))
   \<and> first_line (universal_newlines (result_text str r1 1))
     = ''Trial: n=1, m='' @ str_int (rd_m r1) @ '', d='' @ str_int (rd_d r1)
   \<and> first_line (universal_newlines (result_text str r2 2))
     = ''Trial: n=2, m='' @ str_int (rd_m r2) @ '', d='' @ str_int (rd_d r2)
   \<and> first_line (result_text str r3 3)
     = ''Trial: n=3, m='' @ str_int (rd_m r3) @ '', d='' @ str_int (rd_d r3)
   \<and> (carriage_return \<notin> set (result_text str r1 1 @ result_text str r2 2) \<longrightarrow>
        save_all str [r1, r2, r3] None
          = Inr (Some (''N: 3'' @ newline # result_text str r1 1 @ result_text str r2 2
                         @ result_text str r3 3))
        \<and> save_all str [r1, r2, r3] (Some [])
          = Inr (Some (''N: 3'' @ newline # result_text str r1 1 @ result_text str r2 2
                         @ result_text str r3 3)))"
proof -
  have three: "str_nat (Suc (length [r1, r2])) = ''3''"
    by (simp add: str_nat.simps digit_char_def)
  have blocks: "universal_newlines (trial_blocks str [r1, r2] 1)
      = universal_newlines (result_text str r1 1) @ universal_newlines (result_text str r2 2)"
    using un_result_text [of "result_text str r1 1" str r2 2 "[]"] by simp
  have run: "save_all str [r1, r2, r3] ledger
     = Inr (Some (''N: 3'' @ newline # universal_newlines (result_text str r1 1)
                    @ universal_newlines (result_text str r2 2) @ result_text str r3 3))"
    if "ledger = None \<or> ledger = Some []" for ledger
    using save_all_up_to_ten [OF that, of "[r1, r2]" str r3] unfolding three blocks by simp
  have numbers: "str_int 1 = ''1''" "str_int 2 = ''2''" "str_int 3 = ''3''"
    by (simp_all add: str_int_def str_nat.simps digit_char_def)
  have plain: "save_all str [r1, r2, r3] ledger
          = Inr (Some (''N: 3'' @ newline # result_text str r1 1 @ result_text str r2 2
                         @ result_text str r3 3))"
    if "carriage_return \<notin> set (result_text str r1 1 @ result_text str r2 2)"
      and "ledger = None \<or> ledger = Some []" for ledger
    using that(1) run [OF that(2)] by (simp add: un_no_cr)
  show ?thesis
    using run [of None] run [of "Some []"] plain [of None] plain [of "Some []"]
    by (simp add: first_line_result_text first_line_stored_block numbers)
qed

theorem three_trials_ledger_witness:
  "save_all (\<lambda>x. x) [test_result, test_result, test_result] None
     = Inr (Some (''N: 3'' @ newline # result_text (\<lambda>x. x) test_result 1
                    @ result_text (\<lambda>x. x) test_result 2 @ result_text (\<lambda>x. x) test_result 3))"
proof -
  have "carriage_return \<notin> set (result_text (\<lambda>x. x) test_result 1 @ result_text (\<lambda>x. x) test_result 2)"
    by (simp add: result_text_def test_result_def str_int_def str_nat.simps digit_char_def)
  then show ?thesis
    using three_trials_ledger [of "\<lambda>x. x" test_result test_result test_result] by blast
qed

text \<open>
  Claim C3 says that after any number \<open>k \<ge> 1\<close> of calls the first line reads \<^verbatim>\<open>N: <k>\<close> and
  the blocks are headed \<^verbatim>\<open>Trial: n=1\<close> to \<^verbatim>\<open>Trial: n=k\<close>. This holds up to ten calls (lemma
  \<open>save_all_up_to_ten\<close>). \<^verbatim>\<open>save_results\<close> reads only the last character of the first line,
  so the eleventh call reads 0 from \<^verbatim>\<open>N: 10\<close>: it writes a second line \<^verbatim>\<open>N: 1\<close> at the end of
  the file and heads the eleventh block \<^verbatim>\<open>Trial: n=1\<close>.
\<close>

theorem eleventh_trial_restarts_numbering:
  "save_all str [r1, r2, r3, r4, r5, r6, r7, r8, r9, r10, r11] None
     = Inr (Some (''N: 11'' @ newline
                    # universal_newlines (trial_blocks str [r1, r2, r3, r4, r5, r6, r7, r8, r9, r10] 1)
                    @ ''N: 1'' @ newline # result_text str r11 1))"
proof -
  let ?nine = "[r1, r2, r3, r4, r5, r6, r7, r8, r9]"
  have len: "Suc (length ?nine) = 10" "int (length ?nine) + 1 = 10"
    by simp_all
  have ten: "save_all str (?nine @ [r10]) None
     = Inr (Some (''N: 1'' @ CHR ''0'' # newline
                    # universal_newlines (trial_blocks str ?nine 1) @ result_text str r10 10))"
    using save_all_up_to_ten [of None ?nine str r10]
    unfolding len str_nat_ten by simp
  have zero: "int_of_char (CHR ''0'') = Inr 0"
    by (simp add: int_of_char_def)
  have "save_results str r11
          (Some (''N: 1'' @ CHR ''0'' # newline
                   # universal_newlines (trial_blocks str ?nine 1) @ result_text str r10 10))
     = Inr (Some (''N: 1'' @ str_int (0 + 1) @ newline
                    # universal_newlines
                        (universal_newlines (trial_blocks str ?nine 1) @ result_text str r10 10)
                    @ (if (0::int) + 1 = 1 then ''N: '' @ str_int (0 + 1) @ [newline] else [])
                    @ result_text str r11 (0 + 1)))"
    by (rule save_results_step [OF _ _ zero]) simp_all
  moreover have "str_int 1 = ''1''"
    by (simp add: str_int_def str_nat.simps digit_char_def)
  moreover have "universal_newlines
        (universal_newlines (trial_blocks str ?nine 1) @ result_text str r10 10)
      = universal_newlines (trial_blocks str (?nine @ [r10]) 1)"
    using un_result_text [of "universal_newlines (trial_blocks str ?nine 1)" str r10 10 "[]"]
      un_result_text [of "trial_blocks str ?nine 1" str r10 10 "[]"]
    unfolding trial_blocks_snoc by (simp add: un_idem)
  ultimately have last: "save_results str r11
          (Some (''N: 1'' @ CHR ''0'' # newline
                   # universal_newlines (trial_blocks str ?nine 1) @ result_text str r10 10))
     = Inr (Some (''N: 11'' @ newline # universal_newlines (trial_blocks str (?nine @ [r10]) 1)
                    @ ''N: 1'' @ newline # result_text str r11 1))"
    by simp
  have "save_all str ((?nine @ [r10]) @ [r11]) None
     = Inr (Some (''N: 11'' @ newline # universal_newlines (trial_blocks str (?nine @ [r10]) 1)
                    @ ''N: 1'' @ newline # result_text str r11 1))"
    unfolding save_all_snoc [of str "?nine @ [r10]"] ten using last by simp
  then show ?thesis
    by simp
qed

theorem eleventh_trial_restarts_numbering_witness:
  "save_all (\<lambda>x. x) (replicate 11 test_result) None
     = Inr (Some (''N: 11'' @ newline
                    # universal_newlines (trial_blocks (\<lambda>x. x) (replicate 10 test_result) 1)
                    @ ''N: 1'' @ newline # result_text (\<lambda>x. x) test_result 1))"
  using eleventh_trial_restarts_numbering [of "\<lambda>x. x" test_result test_result test_result
      test_result test_result test_result test_result test_result test_result test_result
      test_result]
  by (simp add: numeral_eq_Suc)




end
